theory Spec2Isabelle
  imports Main "HOL-Library.AList"
begin

section \<open>The seat registry of src/models/seatModel.js\<close>

text \<open>
  The module keeps one object \<open>seats\<close> whose own properties are the forty seats of the
  theatre, and seven entry points that read or change it. Every operation runs its
  critical section without an \<open>await\<close> inside, so one call is one atomic step on the
  store; the model passes the store in and returns it updated.

  Three things the JavaScript reads from its environment are parameters of the model:
  \<^item> each \<open>new Date()\<close> is an \<open>int\<close> argument (milliseconds since the epoch), one argument
    per call site, in the order the source reads the clock;
  \<^item> the result of \<open>uuidv4()\<close> is a \<open>string\<close> argument;
  \<^item> user and lock identifiers are strings, as the routes deliver them.
\<close>

subsection \<open>Data\<close>

datatype seat_status = AVAILABLE | LOCKED | BOOKED

text \<open>\<open>LOCK_DURATION = 60 * 1000\<close>\<close>

definition LOCK_DURATION :: int where
  "LOCK_DURATION = 60 * 1000"

text \<open>The object literal of \<open>initializeSeats\<close>; \<open>null\<close> is \<open>None\<close>. The field \<open>id\<close> is
  \<open>seat_id\<close> here.\<close>

record seat =
  seat_id :: string
  row :: string
  number :: nat
  status :: seat_status
  userId :: "string option"
  lockId :: "string option"
  lockedAt :: "int option"
  lockExpiresAt :: "int option"
  bookedAt :: "int option"

text \<open>The own properties of the object \<open>seats\<close>, in insertion order.\<close>

type_synonym seats = "(string \<times> seat) list"

text \<open>The decimal numeral that a template literal prints for a number.\<close>

fun string_of_nat :: "nat \<Rightarrow> string" where
  "string_of_nat n =
     (if n < 10 then [''0123456789'' ! n]
      else string_of_nat (n div 10) @ [''0123456789'' ! (n mod 10)])"

declare string_of_nat.simps [simp del]

definition new_seat :: "string \<Rightarrow> nat \<Rightarrow> seat" where
  "new_seat r i =
     \<lparr>seat_id = r @ string_of_nat i, row = r, number = i, status = AVAILABLE,
      userId = None, lockId = None, lockedAt = None, lockExpiresAt = None,
      bookedAt = None\<rparr>"

definition initializeSeats :: seats where
  "initializeSeats =
     concat (map (\<lambda>r. map (\<lambda>i. (r @ string_of_nat i, new_seat r i)) [1..<9])
       [''A'', ''B'', ''C'', ''D'', ''E''])"

text \<open>
  \<open>seats[seatId]\<close> on an object literal finds an own property first and then a property
  of \<open>Object.prototype\<close>. An inherited property is a function (or, for \<open>__proto__\<close>, the
  prototype object): it is truthy, and its \<open>status\<close>, \<open>userId\<close> and \<open>lockId\<close> are
  \<open>undefined\<close>.
\<close>

definition object_prototype_keys :: "string list" where
  "object_prototype_keys =
     [''constructor'', ''__defineGetter__'', ''__defineSetter__'', ''hasOwnProperty'',
      ''__lookupGetter__'', ''__lookupSetter__'', ''isPrototypeOf'',
      ''propertyIsEnumerable'', ''toString'', ''valueOf'', ''__proto__'',
      ''toLocaleString'']"

datatype property = OwnSeat seat | InheritedProperty | Missing

definition seat_at :: "seats \<Rightarrow> string \<Rightarrow> property" where
  "seat_at seats seatId =
     (case map_of seats seatId of
        Some seat \<Rightarrow> OwnSeat seat
      | None \<Rightarrow> if seatId \<in> set object_prototype_keys then InheritedProperty else Missing)"

text \<open>
  The failures, one constructor per error string of the source:
  \<^item> \<open>NotFound\<close>: \<^verbatim>\<open>Seat not found\<close>;
  \<^item> \<open>Conflict\<close>: \<^verbatim>\<open>Seat ${seatId} is ${seat.status}\<close>, with the field \<open>currentStatus\<close>
    (\<open>None\<close> is \<open>undefined\<close>);
  \<^item> \<open>NotLocked\<close>: \<^verbatim>\<open>Seat ${seatId} is not locked. Current status: ${seat.status}\<close>;
  \<^item> \<open>LockedByAnotherUser\<close>: \<^verbatim>\<open>Seat ${seatId} is locked by another user\<close>;
  \<^item> \<open>InvalidLockId\<close>: \<^verbatim>\<open>Invalid lock ID for seat ${seatId}\<close>;
  \<^item> \<open>LockExpired\<close>: \<^verbatim>\<open>Lock for seat ${seatId} has expired\<close>;
  \<^item> \<open>InvalidUserOrLockId\<close>: \<^verbatim>\<open>Cannot unlock seat ${seatId}. Invalid user or lock ID\<close>.
\<close>

datatype error =
    NotFound
  | Conflict "seat_status option"
  | NotLocked "seat_status option"
  | LockedByAnotherUser
  | InvalidLockId
  | LockExpired
  | InvalidUserOrLockId

text \<open>The success object of \<open>lockSeat\<close>: \<open>lockId\<close>, \<open>lockExpiresAt\<close> and the copy
  \<open>{ ...seat }\<close>.\<close>

type_synonym lock_result = "string \<times> int \<times> seat"

subsection \<open>Expiry\<close>

text \<open>The clearing of the four lock fields, written out at four places in the source.\<close>

definition make_available :: "seat \<Rightarrow> seat" where
  "make_available seat =
     seat\<lparr>status := AVAILABLE, userId := None, lockId := None, lockedAt := None,
          lockExpiresAt := None\<rparr>"

text \<open>The condition of the \<open>if\<close> in \<open>cleanupExpiredLocks\<close>:
  \<^verbatim>\<open>seat.status === LOCKED && seat.lockExpiresAt && now > seat.lockExpiresAt\<close>; the middle
  conjunct is false for \<open>null\<close>.\<close>

definition expired :: "int \<Rightarrow> seat \<Rightarrow> bool" where
  "expired now seat \<longleftrightarrow>
     status seat = LOCKED \<and> (case lockExpiresAt seat of None \<Rightarrow> False | Some e \<Rightarrow> now > e)"

text \<open>The body of the \<open>forEach\<close>, and the loop over \<open>Object.keys(seats)\<close>.\<close>

definition expire :: "int \<Rightarrow> seat \<Rightarrow> seat" where
  "expire now seat = (if expired now seat then make_available seat else seat)"

definition cleanupExpiredLocks :: "int \<Rightarrow> seats \<Rightarrow> seats" where
  "cleanupExpiredLocks now seats = map (\<lambda>(seatId, seat). (seatId, expire now seat)) seats"

text \<open>\<open>new Date() > seat.lockExpiresAt\<close>: both sides become numbers, \<open>null\<close> becomes 0.\<close>

definition date_after :: "int \<Rightarrow> int option \<Rightarrow> bool" where
  "date_after t d = (case d of None \<Rightarrow> t > 0 | Some e \<Rightarrow> t > e)"

subsection \<open>Operations\<close>

text \<open>\<open>getAllSeats\<close> and \<open>getSeatById\<close>: the sweep, then the read. \<open>Missing\<close> is the
  \<open>null\<close> that \<open>seats[seatId] || null\<close> returns.\<close>

definition getAllSeats :: "seats \<Rightarrow> int \<Rightarrow> seat list \<times> seats" where
  "getAllSeats seats now =
     (let seats = cleanupExpiredLocks now seats in (map snd seats, seats))"

definition getSeatById :: "seats \<Rightarrow> string \<Rightarrow> int \<Rightarrow> property \<times> seats" where
  "getSeatById seats seatId now =
     (let seats = cleanupExpiredLocks now seats in (seat_at seats seatId, seats))"

text \<open>
  \<open>lockSeat seats seatId userId uuid now lockedAt\<close>: \<open>now\<close> is the clock of the sweep,
  \<open>lockedAt\<close> the clock read when the lock is created.
\<close>

definition lockSeat ::
  "seats \<Rightarrow> string \<Rightarrow> string \<Rightarrow> string \<Rightarrow> int \<Rightarrow> int \<Rightarrow> (error + lock_result) \<times> seats"
where
  "lockSeat seats seatId user uuid now locked_at =
     (let seats = cleanupExpiredLocks now seats in
      case seat_at seats seatId of
        Missing \<Rightarrow> (Inl NotFound, seats)
      | InheritedProperty \<Rightarrow> (Inl (Conflict None), seats)
      | OwnSeat seat \<Rightarrow>
          if status seat \<noteq> AVAILABLE then (Inl (Conflict (Some (status seat))), seats)
          else
            let expires = locked_at + LOCK_DURATION;
                seat = seat\<lparr>status := LOCKED, userId := Some user, lockId := Some uuid,
                            lockedAt := Some locked_at, lockExpiresAt := Some expires\<rparr>
            in (Inr (uuid, expires, seat), AList.update seatId seat seats))"

text \<open>
  \<open>confirmBooking seats seatId userId lockId now checked_at booked_at\<close>: \<open>now\<close> is the
  clock of the sweep, \<open>checked_at\<close> the clock of the expiry check, \<open>booked_at\<close> the clock
  stored in \<open>bookedAt\<close>.
\<close>

definition confirmBooking ::
  "seats \<Rightarrow> string \<Rightarrow> string \<Rightarrow> string \<Rightarrow> int \<Rightarrow> int \<Rightarrow> int \<Rightarrow> (error + seat) \<times> seats"
where
  "confirmBooking seats seatId user lock now checked_at booked_at =
     (let seats = cleanupExpiredLocks now seats in
      case seat_at seats seatId of
        Missing \<Rightarrow> (Inl NotFound, seats)
      | InheritedProperty \<Rightarrow> (Inl (NotLocked None), seats)
      | OwnSeat seat \<Rightarrow>
          if status seat \<noteq> LOCKED then (Inl (NotLocked (Some (status seat))), seats)
          else if userId seat \<noteq> Some user then (Inl LockedByAnotherUser, seats)
          else if lockId seat \<noteq> Some lock then (Inl InvalidLockId, seats)
          else if date_after checked_at (lockExpiresAt seat)
          then (Inl LockExpired, AList.update seatId (make_available seat) seats)
          else
            let seat = seat\<lparr>status := BOOKED, bookedAt := Some booked_at, lockId := None,
                            lockedAt := None, lockExpiresAt := None\<rparr>
            in (Inr seat, AList.update seatId seat seats))"

text \<open>\<open>unlockSeat\<close> reads no clock and runs no sweep.\<close>

definition unlockSeat ::
  "seats \<Rightarrow> string \<Rightarrow> string \<Rightarrow> string \<Rightarrow> (error + seat) \<times> seats"
where
  "unlockSeat seats seatId user lock =
     (case seat_at seats seatId of
        Missing \<Rightarrow> (Inl NotFound, seats)
      | InheritedProperty \<Rightarrow> (Inl (NotLocked None), seats)
      | OwnSeat seat \<Rightarrow>
          if status seat \<noteq> LOCKED then (Inl (NotLocked (Some (status seat))), seats)
          else if userId seat \<noteq> Some user \<or> lockId seat \<noteq> Some lock
          then (Inl InvalidUserOrLockId, seats)
          else
            let seat = make_available seat
            in (Inr seat, AList.update seatId seat seats))"

text \<open>\<open>getStatistics\<close>: the sweep, then one pass that counts.\<close>

record stats =
  total :: nat
  available :: nat
  locked :: nat
  booked :: nat

definition count_seat :: "stats \<Rightarrow> seat \<Rightarrow> stats" where
  "count_seat st seat =
     (let st = st\<lparr>total := total st + 1\<rparr> in
      case status seat of
        AVAILABLE \<Rightarrow> st\<lparr>available := available st + 1\<rparr>
      | LOCKED \<Rightarrow> st\<lparr>locked := locked st + 1\<rparr>
      | BOOKED \<Rightarrow> st\<lparr>booked := booked st + 1\<rparr>)"

definition getStatistics :: "seats \<Rightarrow> int \<Rightarrow> stats \<times> seats" where
  "getStatistics seats now =
     (let seats = cleanupExpiredLocks now seats in
      (foldl count_seat \<lparr>total = 0, available = 0, locked = 0, booked = 0\<rparr> (map snd seats),
       seats))"

text \<open>\<open>resetSeats\<close> replaces the store.\<close>

definition resetSeats :: "seats \<Rightarrow> seats" where
  "resetSeats seats = initializeSeats"

subsection \<open>Runs of the registry\<close>

text \<open>
  One constructor per entry point of the module, with the arguments and clock readings
  of the call; \<open>Sweep\<close> is the timer that calls \<open>cleanupExpiredLocks\<close> every ten seconds.
  A run starts from the store the module builds when it is loaded.
\<close>

datatype operation =
    LockSeat string string string int int
  | ConfirmBooking string string string int int int
  | UnlockSeat string string string
  | Sweep int
  | GetAllSeats int
  | GetSeatById string int
  | GetStatistics int
  | ResetSeats

fun step :: "seats \<Rightarrow> operation \<Rightarrow> seats" where
  "step seats (LockSeat seatId user uuid now locked_at) =
     snd (lockSeat seats seatId user uuid now locked_at)"
| "step seats (ConfirmBooking seatId user lock now checked_at booked_at) =
     snd (confirmBooking seats seatId user lock now checked_at booked_at)"
| "step seats (UnlockSeat seatId user lock) = snd (unlockSeat seats seatId user lock)"
| "step seats (Sweep now) = cleanupExpiredLocks now seats"
| "step seats (GetAllSeats now) = snd (getAllSeats seats now)"
| "step seats (GetSeatById seatId now) = snd (getSeatById seats seatId now)"
| "step seats (GetStatistics now) = snd (getStatistics seats now)"
| "step seats ResetSeats = resetSeats seats"

definition run :: "operation list \<Rightarrow> seats" where
  "run ops = foldl step initializeSeats ops"

text \<open>The three invariants of a seat, as the data model states them.\<close>

definition seat_inv :: "seat \<Rightarrow> bool" where
  "seat_inv s \<longleftrightarrow>
     (status s = AVAILABLE \<longleftrightarrow>
        userId s = None \<and> lockId s = None \<and> lockedAt s = None \<and> lockExpiresAt s = None)
   \<and> (status s = LOCKED \<longrightarrow>
        userId s \<noteq> None \<and> lockId s \<noteq> None
        \<and> (case lockedAt s of
             None \<Rightarrow> False
           | Some t \<Rightarrow> lockExpiresAt s = Some (t + LOCK_DURATION)))
   \<and> (status s = BOOKED \<longrightarrow>
        userId s \<noteq> None \<and> bookedAt s \<noteq> None
        \<and> lockId s = None \<and> lockedAt s = None \<and> lockExpiresAt s = None)"

text \<open>The invariants for every entry of a store.\<close>

definition seats_inv :: "seats \<Rightarrow> bool" where
  "seats_inv seats \<longleftrightarrow> (\<forall>p \<in> set seats. seat_inv (snd p))"

subsection \<open>A scenario\<close>

text \<open>Seat B3 locked by \<open>dave\<close> at time 0, so that the lock expires at 60000.\<close>

definition leased_B3 :: seats where
  "leased_B3 = snd (lockSeat initializeSeats ''B3'' ''dave'' ''lock-1'' 0 0)"

definition locked_B3 :: seat where
  "locked_B3 =
     \<lparr>seat_id = ''B3'', row = ''B'', number = 3, status = LOCKED,
      userId = Some ''dave'', lockId = Some ''lock-1'', lockedAt = Some 0,
      lockExpiresAt = Some 60000, bookedAt = None\<rparr>"

section \<open>Lookup and sweep\<close>

lemma map_of_cleanup:
  "map_of (cleanupExpiredLocks now seats) k = map_option (expire now) (map_of seats k)"
  by (simp add: cleanupExpiredLocks_def map_of_map)

lemma seat_at_own: "seat_at seats k = OwnSeat s \<longleftrightarrow> map_of seats k = Some s"
  by (auto simp: seat_at_def split: option.splits)

lemma seat_at_update:
  "seat_at (AList.update k v seats) k' = (if k' = k then OwnSeat v else seat_at seats k')"
  by (simp add: seat_at_def update_conv')

lemma new_seat_fields:
  "status (new_seat r i) = AVAILABLE" "userId (new_seat r i) = None"
  "lockId (new_seat r i) = None" "lockedAt (new_seat r i) = None"
  "lockExpiresAt (new_seat r i) = None" "bookedAt (new_seat r i) = None"
  by (simp_all add: new_seat_def)

lemma initializeSeats_entry:
  "(k, s) \<in> set initializeSeats \<Longrightarrow> \<exists>r i. s = new_seat r i"
  by (auto simp: initializeSeats_def)

lemma seat_at_cleanup_own:
  "map_of seats k = Some s \<Longrightarrow> seat_at (cleanupExpiredLocks now seats) k = OwnSeat (expire now s)"
  by (simp add: seat_at_def map_of_cleanup)

lemma expire_make_available [simp]: "expire now (make_available s) = make_available s"
  by (simp add: expire_def expired_def make_available_def)

lemma status_make_available [simp]: "status (make_available s) = AVAILABLE"
  by (simp add: make_available_def)

lemma not_expired_expire [simp]: "\<not> expired now (expire now s)"
  by (simp add: expire_def expired_def)

lemma count_seat_fields:
  "total (count_seat st x) = total st + 1"
  "available (count_seat st x) = available st + (if status x = AVAILABLE then 1 else 0)"
  "locked (count_seat st x) = locked st + (if status x = LOCKED then 1 else 0)"
  "booked (count_seat st x) = booked st + (if status x = BOOKED then 1 else 0)"
  by (cases "status x"; simp add: count_seat_def Let_def)+

lemma foldl_count_seat:
  "total (foldl count_seat st xs) = total st + length xs
   \<and> available (foldl count_seat st xs)
       = available st + length (filter (\<lambda>s. status s = AVAILABLE) xs)
   \<and> locked (foldl count_seat st xs) = locked st + length (filter (\<lambda>s. status s = LOCKED) xs)
   \<and> booked (foldl count_seat st xs) = booked st + length (filter (\<lambda>s. status s = BOOKED) xs)"
  by (induction xs arbitrary: st) (simp_all add: count_seat_fields)

lemma status_expire:
  "status (expire now s) = (if expired now s then AVAILABLE else status s)"
  by (simp add: expire_def)

lemma map_snd_cleanup:
  "map snd (cleanupExpiredLocks now seats) = map (expire now) (map snd seats)"
  by (induction seats) (auto simp: cleanupExpiredLocks_def)

lemma length_filter_expire:
  "length (filter P (map (expire now) xs)) = length (filter (\<lambda>s. P (expire now s)) xs)"
  by (induction xs) simp_all

lemma getStatistics_counts:
  "locked (fst (getStatistics seats now))
     = length (filter (\<lambda>s. status s = LOCKED \<and> \<not> expired now s) (map snd seats))
   \<and> available (fst (getStatistics seats now))
     = length (filter (\<lambda>s. status s = AVAILABLE \<or> expired now s) (map snd seats))"
proof -
  have l: "(\<lambda>s. status (expire now s) = LOCKED) = (\<lambda>s. status s = LOCKED \<and> \<not> expired now s)"
    by (auto simp: status_expire)
  have a: "(\<lambda>s. status (expire now s) = AVAILABLE) = (\<lambda>s. status s = AVAILABLE \<or> expired now s)"
    by (auto simp: status_expire)
  have "locked (fst (getStatistics seats now))
      = length (filter (\<lambda>s. status s = LOCKED) (map (expire now) (map snd seats)))"
    by (simp add: getStatistics_def Let_def foldl_count_seat map_snd_cleanup
        del: length_filter_map map_map)
  then have 1: "locked (fst (getStatistics seats now))
      = length (filter (\<lambda>s. status s = LOCKED \<and> \<not> expired now s) (map snd seats))"
    by (simp only: length_filter_expire l)
  have "available (fst (getStatistics seats now))
      = length (filter (\<lambda>s. status s = AVAILABLE) (map (expire now) (map snd seats)))"
    by (simp add: getStatistics_def Let_def foldl_count_seat map_snd_cleanup
        del: length_filter_map map_map)
  then have 2: "available (fst (getStatistics seats now))
      = length (filter (\<lambda>s. status s = AVAILABLE \<or> expired now s) (map snd seats))"
    by (simp only: length_filter_expire a)
  from 1 2 show ?thesis by (rule conjI)
qed

section \<open>Reset\<close>

text \<open>
  C9. After \<open>resetSeats\<close>, whatever the store was, every seat of the store is available
  and has no user, no lock identifier, no lock timestamps and no booking timestamp.
\<close>

theorem resetSeats_total:
  assumes "(k, s) \<in> set (resetSeats seats)"
  shows "status s = AVAILABLE \<and> userId s = None \<and> lockId s = None \<and> lockedAt s = None
    \<and> lockExpiresAt s = None \<and> bookedAt s = None"
proof -
  from assms obtain r i where "s = new_seat r i"
    unfolding resetSeats_def by (blast dest: initializeSeats_entry)
  then show ?thesis by (simp add: new_seat_fields)
qed

theorem resetSeats_total_witness:
  "(''B3'', new_seat ''B'' 3) \<in> set (resetSeats leased_B3)
   \<and> status (new_seat ''B'' 3) = AVAILABLE \<and> userId (new_seat ''B'' 3) = None
   \<and> lockId (new_seat ''B'' 3) = None \<and> lockedAt (new_seat ''B'' 3) = None
   \<and> lockExpiresAt (new_seat ''B'' 3) = None \<and> bookedAt (new_seat ''B'' 3) = None"
proof -
  have h: "(''B3'', new_seat ''B'' 3) \<in> set (resetSeats leased_B3)"
    by code_simp
  from h resetSeats_total [OF h] show ?thesis by blast
qed

section \<open>Unlocking\<close>

text \<open>
  C7. \<open>unlockSeat\<close> on a seat of the store: when the seat is not locked it fails with
  \<open>NotLocked\<close>; when the seat is locked and the user or the lock identifier differs from
  the stored one it fails with the one error \<open>InvalidUserOrLockId\<close>; otherwise it
  succeeds, and the seat is available with user, lock identifier and both lock
  timestamps cleared. The function reads no clock, so the outcome is the same before and
  after the expiry time of the lock.
\<close>

theorem unlockSeat_outcomes:
  assumes "seat_at seats seatId = OwnSeat seat"
  shows "(status seat \<noteq> LOCKED \<longrightarrow>
            unlockSeat seats seatId user lock = (Inl (NotLocked (Some (status seat))), seats))
       \<and> (status seat = LOCKED \<and> (userId seat \<noteq> Some user \<or> lockId seat \<noteq> Some lock) \<longrightarrow>
            unlockSeat seats seatId user lock = (Inl InvalidUserOrLockId, seats))
       \<and> (status seat = LOCKED \<and> userId seat = Some user \<and> lockId seat = Some lock \<longrightarrow>
            (\<exists>s'. fst (unlockSeat seats seatId user lock) = Inr s'
               \<and> seat_at (snd (unlockSeat seats seatId user lock)) seatId = OwnSeat s'
               \<and> status s' = AVAILABLE \<and> userId s' = None \<and> lockId s' = None
               \<and> lockedAt s' = None \<and> lockExpiresAt s' = None))"
  using assms by (simp add: unlockSeat_def Let_def seat_at_update make_available_def)

theorem unlockSeat_outcomes_witness:
  "seat_at leased_B3 ''B3'' = OwnSeat locked_B3
   \<and> unlockSeat leased_B3 ''B3'' ''erin'' ''lock-1'' = (Inl InvalidUserOrLockId, leased_B3)
   \<and> unlockSeat leased_B3 ''B3'' ''dave'' ''lock-2'' = (Inl InvalidUserOrLockId, leased_B3)
   \<and> (\<exists>s'. fst (unlockSeat leased_B3 ''B3'' ''dave'' ''lock-1'') = Inr s'
         \<and> seat_at (snd (unlockSeat leased_B3 ''B3'' ''dave'' ''lock-1'')) ''B3'' = OwnSeat s'
         \<and> status s' = AVAILABLE \<and> userId s' = None \<and> lockId s' = None
         \<and> lockedAt s' = None \<and> lockExpiresAt s' = None)"
proof -
  have h: "seat_at leased_B3 ''B3'' = OwnSeat locked_B3"
    by code_simp
  from h unlockSeat_outcomes [OF h, of "''erin''" "''lock-1''"]
    unlockSeat_outcomes [OF h, of "''dave''" "''lock-2''"]
    unlockSeat_outcomes [OF h, of "''dave''" "''lock-1''"]
  show ?thesis by (simp add: locked_B3_def)
qed

section \<open>Confirming a booking\<close>

text \<open>
  C2. \<open>confirmBooking\<close> on a seat that the store holds after the sweep applies its
  checks in this order: a seat that is not locked fails with \<open>NotLocked\<close>; else a stored
  user other than the caller fails with \<open>LockedByAnotherUser\<close>; else a stored lock
  identifier other than the one given fails with \<open>InvalidLockId\<close>; else, when the clock
  read for the expiry check is past \<open>lockExpiresAt\<close>, the seat becomes available and the
  call fails with \<open>LockExpired\<close>; otherwise the call succeeds, the seat is booked,
  \<open>bookedAt\<close> is the clock read for it, the lock identifier and both lock timestamps are
  cleared and the user is kept.
\<close>

theorem confirmBooking_order:
  assumes "seat_at (cleanupExpiredLocks now seats) seatId = OwnSeat seat"
  shows "(status seat \<noteq> LOCKED \<longrightarrow>
            fst (confirmBooking seats seatId user lock now checked_at booked_at)
              = Inl (NotLocked (Some (status seat))))
       \<and> (status seat = LOCKED \<and> userId seat \<noteq> Some user \<longrightarrow>
            fst (confirmBooking seats seatId user lock now checked_at booked_at)
              = Inl LockedByAnotherUser)
       \<and> (status seat = LOCKED \<and> userId seat = Some user \<and> lockId seat \<noteq> Some lock \<longrightarrow>
            fst (confirmBooking seats seatId user lock now checked_at booked_at)
              = Inl InvalidLockId)
       \<and> (status seat = LOCKED \<and> userId seat = Some user \<and> lockId seat = Some lock
            \<and> date_after checked_at (lockExpiresAt seat) \<longrightarrow>
            fst (confirmBooking seats seatId user lock now checked_at booked_at)
              = Inl LockExpired
            \<and> (\<exists>s'. seat_at (snd (confirmBooking seats seatId user lock now checked_at
                        booked_at)) seatId = OwnSeat s'
                 \<and> status s' = AVAILABLE \<and> userId s' = None \<and> lockId s' = None
                 \<and> lockedAt s' = None \<and> lockExpiresAt s' = None))
       \<and> (status seat = LOCKED \<and> userId seat = Some user \<and> lockId seat = Some lock
            \<and> \<not> date_after checked_at (lockExpiresAt seat) \<longrightarrow>
            (\<exists>s'. fst (confirmBooking seats seatId user lock now checked_at booked_at) = Inr s'
               \<and> seat_at (snd (confirmBooking seats seatId user lock now checked_at
                        booked_at)) seatId = OwnSeat s'
               \<and> status s' = BOOKED \<and> bookedAt s' = Some booked_at \<and> lockId s' = None
               \<and> lockedAt s' = None \<and> lockExpiresAt s' = None \<and> userId s' = Some user))"
  using assms by (simp add: confirmBooking_def Let_def seat_at_update make_available_def)

theorem confirmBooking_order_witness:
  "seat_at (cleanupExpiredLocks 1000 leased_B3) ''B3'' = OwnSeat locked_B3
   \<and> fst (confirmBooking leased_B3 ''B3'' ''erin'' ''lock-2'' 1000 70000 70000)
       = Inl LockedByAnotherUser
   \<and> fst (confirmBooking leased_B3 ''B3'' ''dave'' ''lock-2'' 1000 70000 70000)
       = Inl InvalidLockId
   \<and> fst (confirmBooking leased_B3 ''B3'' ''dave'' ''lock-1'' 1000 70000 70000)
       = Inl LockExpired
   \<and> (\<exists>s'. fst (confirmBooking leased_B3 ''B3'' ''dave'' ''lock-1'' 1000 60000 60000) = Inr s'
        \<and> status s' = BOOKED \<and> bookedAt s' = Some 60000 \<and> lockId s' = None
        \<and> lockedAt s' = None \<and> lockExpiresAt s' = None \<and> userId s' = Some ''dave'')"
proof -
  have h: "seat_at (cleanupExpiredLocks 1000 leased_B3) ''B3'' = OwnSeat locked_B3"
    by code_simp
  from h confirmBooking_order [OF h, of "''erin''" "''lock-2''" 70000 70000]
    confirmBooking_order [OF h, of "''dave''" "''lock-2''" 70000 70000]
    confirmBooking_order [OF h, of "''dave''" "''lock-1''" 70000 70000]
    confirmBooking_order [OF h, of "''dave''" "''lock-1''" 60000 60000]
  show ?thesis by (auto simp add: locked_B3_def date_after_def)
qed

text \<open>
  C10. A failure of \<open>confirmBooking\<close> other than \<open>LockExpired\<close>, and every failure of
  \<open>unlockSeat\<close>, leaves the addressed seat (indeed the whole store) exactly as the
  validation found it: after the sweep for \<open>confirmBooking\<close>, as stored for
  \<open>unlockSeat\<close>. The failure \<open>LockExpired\<close> is the one that changes the addressed seat:
  the seat was locked and is made available.
\<close>

theorem failures_leave_seat:
  "(fst (confirmBooking seats seatId user lock now checked_at booked_at) = Inl e
      \<and> e \<noteq> LockExpired \<longrightarrow>
        snd (confirmBooking seats seatId user lock now checked_at booked_at)
          = cleanupExpiredLocks now seats
      \<and> seat_at (snd (confirmBooking seats seatId user lock now checked_at booked_at)) seatId
          = seat_at (cleanupExpiredLocks now seats) seatId)
   \<and> (fst (unlockSeat seats seatId user lock) = Inl e \<longrightarrow>
        snd (unlockSeat seats seatId user lock) = seats
      \<and> seat_at (snd (unlockSeat seats seatId user lock)) seatId = seat_at seats seatId)
   \<and> (fst (confirmBooking seats seatId user lock now checked_at booked_at) = Inl LockExpired
        \<longrightarrow> (\<exists>s. seat_at (cleanupExpiredLocks now seats) seatId = OwnSeat s
               \<and> status s = LOCKED
               \<and> seat_at (snd (confirmBooking seats seatId user lock now checked_at
                        booked_at)) seatId = OwnSeat (make_available s)
               \<and> status (make_available s) = AVAILABLE))"
  by (auto simp: confirmBooking_def unlockSeat_def Let_def seat_at_update make_available_def
      split: property.splits if_splits)

theorem failures_leave_seat_witness:
  "fst (confirmBooking leased_B3 ''B3'' ''erin'' ''lock-1'' 1000 1000 1000)
     = Inl LockedByAnotherUser
   \<and> LockedByAnotherUser \<noteq> LockExpired
   \<and> seat_at (snd (confirmBooking leased_B3 ''B3'' ''erin'' ''lock-1'' 1000 1000 1000)) ''B3''
       = seat_at (cleanupExpiredLocks 1000 leased_B3) ''B3''
   \<and> fst (unlockSeat leased_B3 ''B3'' ''erin'' ''lock-1'') = Inl InvalidUserOrLockId
   \<and> snd (unlockSeat leased_B3 ''B3'' ''erin'' ''lock-1'') = leased_B3
   \<and> fst (confirmBooking leased_B3 ''B3'' ''dave'' ''lock-1'' 60000 60001 60001)
       = Inl LockExpired
   \<and> seat_at (snd (confirmBooking leased_B3 ''B3'' ''dave'' ''lock-1'' 60000 60001 60001))
       ''B3'' = OwnSeat (make_available locked_B3)"
proof -
  have a: "fst (confirmBooking leased_B3 ''B3'' ''erin'' ''lock-1'' 1000 1000 1000)
     = Inl LockedByAnotherUser"
    by code_simp
  have b: "fst (unlockSeat leased_B3 ''B3'' ''erin'' ''lock-1'') = Inl InvalidUserOrLockId"
    by code_simp
  have c: "fst (confirmBooking leased_B3 ''B3'' ''dave'' ''lock-1'' 60000 60001 60001)
       = Inl LockExpired"
    by code_simp
  have d: "seat_at (cleanupExpiredLocks 60000 leased_B3) ''B3'' = OwnSeat locked_B3"
    by code_simp
  from a b c d
    failures_leave_seat [of leased_B3 "''B3''" "''erin''" "''lock-1''" 1000 1000 1000
      LockedByAnotherUser]
    failures_leave_seat [of leased_B3 "''B3''" "''erin''" "''lock-1''" 1000 1000 1000
      InvalidUserOrLockId]
    failures_leave_seat [of leased_B3 "''B3''" "''dave''" "''lock-1''" 60000 60001 60001
      LockExpired]
  show ?thesis by simp
qed

section \<open>Invariants of the reachable stores\<close>

lemma set_update_cases:
  "p \<in> set (AList.update k v al) \<Longrightarrow> p \<in> set al \<or> p = (k, v)"
  by (induction al) (auto split: if_splits)

lemma seat_inv_new_seat: "seat_inv (new_seat r i)"
  by (simp add: seat_inv_def new_seat_def)

lemma seat_inv_make_available: "seat_inv (make_available s)"
  by (simp add: seat_inv_def make_available_def)

lemma seat_inv_expire: "seat_inv s \<Longrightarrow> seat_inv (expire now s)"
  by (simp add: expire_def seat_inv_make_available)

lemma inv_initializeSeats: "seats_inv initializeSeats"
  unfolding seats_inv_def
proof
  fix p assume "p \<in> set initializeSeats"
  then have "(fst p, snd p) \<in> set initializeSeats" by simp
  then obtain r i where "snd p = new_seat r i"
    by (blast dest: initializeSeats_entry)
  then show "seat_inv (snd p)" by (simp add: seat_inv_new_seat)
qed

lemma inv_cleanup: "seats_inv seats \<Longrightarrow> seats_inv (cleanupExpiredLocks now seats)"
  by (auto simp: seats_inv_def cleanupExpiredLocks_def seat_inv_expire)

lemma inv_update: "seats_inv seats \<Longrightarrow> seat_inv v \<Longrightarrow> seats_inv (AList.update k v seats)"
  by (auto simp: seats_inv_def dest: set_update_cases)

lemma inv_lockSeat:
  assumes "seats_inv seats"
  shows "seats_inv (snd (lockSeat seats seatId user uuid now locked_at))"
proof -
  let ?swept = "cleanupExpiredLocks now seats"
  have swept: "seats_inv ?swept"
    using assms by (rule inv_cleanup)
  show ?thesis
  proof (cases "seat_at ?swept seatId")
    case (OwnSeat seat)
    have "seat_inv (seat\<lparr>status := LOCKED, userId := Some user, lockId := Some uuid,
        lockedAt := Some locked_at, lockExpiresAt := Some (locked_at + LOCK_DURATION)\<rparr>)"
      by (simp add: seat_inv_def)
    with OwnSeat show ?thesis
      by (simp add: lockSeat_def Let_def swept inv_update)
  next
    case InheritedProperty
    with swept show ?thesis by (simp add: lockSeat_def Let_def)
  next
    case Missing
    with swept show ?thesis by (simp add: lockSeat_def Let_def)
  qed
qed

lemma inv_confirmBooking:
  assumes "seats_inv seats"
  shows "seats_inv (snd (confirmBooking seats seatId user lock now checked_at booked_at))"
proof -
  let ?swept = "cleanupExpiredLocks now seats"
  have swept: "seats_inv ?swept"
    using assms by (rule inv_cleanup)
  show ?thesis
  proof (cases "seat_at ?swept seatId")
    case (OwnSeat seat)
    have booked: "userId seat = Some user \<Longrightarrow>
      seat_inv (seat\<lparr>status := BOOKED, bookedAt := Some booked_at, lockId := None,
        lockedAt := None, lockExpiresAt := None\<rparr>)"
      by (simp add: seat_inv_def)
    from OwnSeat show ?thesis
      by (simp add: confirmBooking_def Let_def swept inv_update booked seat_inv_make_available)
  next
    case InheritedProperty
    with swept show ?thesis by (simp add: confirmBooking_def Let_def)
  next
    case Missing
    with swept show ?thesis by (simp add: confirmBooking_def Let_def)
  qed
qed

lemma inv_unlockSeat:
  assumes "seats_inv seats"
  shows "seats_inv (snd (unlockSeat seats seatId user lock))"
  using assms
  by (cases "seat_at seats seatId")
    (simp_all add: unlockSeat_def Let_def inv_update seat_inv_make_available)

lemma inv_step:
  assumes "seats_inv seats"
  shows "seats_inv (step seats op)"
proof (cases op)
  case (LockSeat seatId user uuid now locked_at)
  then show ?thesis using inv_lockSeat [OF assms] by simp
next
  case (ConfirmBooking seatId user lock now checked_at booked_at)
  then show ?thesis using inv_confirmBooking [OF assms] by simp
next
  case (UnlockSeat seatId user lock)
  then show ?thesis using inv_unlockSeat [OF assms] by simp
next
  case (Sweep now)
  then show ?thesis using inv_cleanup [OF assms] by simp
next
  case (GetAllSeats now)
  then show ?thesis using inv_cleanup [OF assms] by (simp add: getAllSeats_def Let_def)
next
  case (GetSeatById seatId now)
  then show ?thesis using inv_cleanup [OF assms] by (simp add: getSeatById_def Let_def)
next
  case (GetStatistics now)
  then show ?thesis using inv_cleanup [OF assms] by (simp add: getStatistics_def Let_def)
next
  case ResetSeats
  then show ?thesis by (simp add: resetSeats_def inv_initializeSeats)
qed

lemma inv_foldl_step: "seats_inv seats \<Longrightarrow> seats_inv (foldl step seats ops)"
  by (induction ops arbitrary: seats) (simp_all add: inv_step)

text \<open>
  C8. In every store that a run of lock, confirm, unlock, sweep, read and reset calls
  reaches from the initial store, with any arguments and any clock readings, every seat
  satisfies \<open>seat_inv\<close>: it is available exactly when user, lock identifier and both lock
  timestamps are \<open>null\<close>; when locked it has all four set and
  \<open>lockExpiresAt = lockedAt + LOCK_DURATION\<close>; when booked it has user and \<open>bookedAt\<close>
  set and the lock identifier and both lock timestamps \<open>null\<close>.
\<close>

theorem reachable_seat_inv:
  assumes "(k, s) \<in> set (run ops)"
  shows "seat_inv s"
proof -
  have "seats_inv (run ops)"
    unfolding run_def using inv_initializeSeats by (rule inv_foldl_step)
  with assms show ?thesis
    unfolding seats_inv_def by fastforce
qed

theorem reachable_seat_inv_witness:
  "(''B3'', locked_B3) \<in> set (run [LockSeat ''A1'' ''alice'' ''lock-0'' 0 0, ResetSeats,
        LockSeat ''B3'' ''dave'' ''lock-1'' 0 0, Sweep 60000])
   \<and> seat_inv locked_B3"
proof -
  have h: "(''B3'', locked_B3) \<in> set (run [LockSeat ''A1'' ''alice'' ''lock-0'' 0 0, ResetSeats,
        LockSeat ''B3'' ''dave'' ''lock-1'' 0 0, Sweep 60000])"
    by code_simp
  from h reachable_seat_inv [OF h] show ?thesis by simp
qed

section \<open>Locking\<close>

text \<open>
  What \<open>lockSeat\<close> does with a seat of the store, after the sweep: an available seat is
  locked for the caller with the generated identifier, \<open>lockedAt\<close> the clock read for it
  and \<open>lockExpiresAt\<close> 60000 ms later, and the call returns the identifier, the expiry
  and the copy of the seat; a seat in another state gives the conflict failure with that
  state. A name that is neither a seat nor a property of \<open>Object.prototype\<close> gives
  \<open>NotFound\<close>; a name of a property of \<open>Object.prototype\<close> gives the conflict failure.
\<close>

lemma lockSeat_available:
  assumes "seat_at (cleanupExpiredLocks now seats) seatId = OwnSeat seat"
    and "status seat = AVAILABLE"
  shows "\<exists>s'. lockSeat seats seatId user uuid now locked_at
            = (Inr (uuid, locked_at + 60000, s'),
               AList.update seatId s' (cleanupExpiredLocks now seats))
          \<and> seat_at (snd (lockSeat seats seatId user uuid now locked_at)) seatId = OwnSeat s'
          \<and> status s' = LOCKED \<and> userId s' = Some user \<and> lockId s' = Some uuid
          \<and> lockedAt s' = Some locked_at \<and> lockExpiresAt s' = Some (locked_at + 60000)
          \<and> bookedAt s' = bookedAt seat \<and> seat_id s' = seat_id seat \<and> row s' = row seat
          \<and> number s' = number seat"
  using assms by (simp add: lockSeat_def Let_def LOCK_DURATION_def seat_at_update)

lemma lockSeat_unavailable:
  assumes "seat_at (cleanupExpiredLocks now seats) seatId = OwnSeat seat"
    and "status seat \<noteq> AVAILABLE"
  shows "lockSeat seats seatId user uuid now locked_at
           = (Inl (Conflict (Some (status seat))), cleanupExpiredLocks now seats)"
  using assms by (simp add: lockSeat_def Let_def)

lemma lockSeat_missing:
  assumes "map_of seats seatId = None" and "seatId \<notin> set object_prototype_keys"
  shows "lockSeat seats seatId user uuid now locked_at
           = (Inl NotFound, cleanupExpiredLocks now seats)"
  using assms by (simp add: lockSeat_def Let_def seat_at_def map_of_cleanup)

lemma lockSeat_inherited:
  assumes "map_of seats seatId = None" and "seatId \<in> set object_prototype_keys"
  shows "lockSeat seats seatId user uuid now locked_at
           = (Inl (Conflict None), cleanupExpiredLocks now seats)"
  using assms by (simp add: lockSeat_def Let_def seat_at_def map_of_cleanup)

text \<open>
  Two calls for one seat, one after the other: once a call has locked the seat, a later
  call whose sweep runs no later than the expiry of that lock fails with the conflict
  failure, whoever calls.
\<close>

lemma lockSeat_then_conflict:
  assumes "lockSeat seats seatId user uuid now locked_at = (Inr r, seats')"
    and "now' \<le> locked_at + LOCK_DURATION"
  shows "fst (lockSeat seats' seatId user' uuid' now' locked_at') = Inl (Conflict (Some LOCKED))"
proof -
  let ?swept = "cleanupExpiredLocks now seats"
  from assms(1) obtain seat where own: "seat_at ?swept seatId = OwnSeat seat"
    and av: "status seat = AVAILABLE"
    by (cases "seat_at ?swept seatId") (auto simp: lockSeat_def Let_def split: if_splits)
  let ?locked = "seat\<lparr>status := LOCKED, userId := Some user, lockId := Some uuid,
      lockedAt := Some locked_at, lockExpiresAt := Some (locked_at + LOCK_DURATION)\<rparr>"
  from assms(1) own av have "seats' = AList.update seatId ?locked ?swept"
    by (simp add: lockSeat_def Let_def)
  then have "map_of seats' seatId = Some ?locked"
    by (simp add: update_conv')
  then have "seat_at (cleanupExpiredLocks now' seats') seatId = OwnSeat (expire now' ?locked)"
    by (rule seat_at_cleanup_own)
  moreover from assms(2) have "expire now' ?locked = ?locked"
    by (simp add: expire_def expired_def)
  ultimately show ?thesis
    by (simp add: lockSeat_def Let_def)
qed

text \<open>
  C3. The specification asks for \<open>NotFound\<close> whenever the seat does not exist. The initial store
  has no seat \<open>constructor\<close>, and \<open>lockSeat\<close> for that name fails with the conflict
  failure whose \<open>currentStatus\<close> is \<open>undefined\<close>: \<open>seats[seatId]\<close> finds the function
  inherited from \<open>Object.prototype\<close>, so the test \<open>!seat\<close> does not fire.
\<close>

theorem lockSeat_inherited_name:
  "map_of initializeSeats ''constructor'' = None
   \<and> lockSeat initializeSeats ''constructor'' ''user1'' ''lock-1'' 0 0
       = (Inl (Conflict None), initializeSeats)"
  by code_simp

section \<open>What a lock call does to the other seats\<close>

text \<open>
  C4, as the code has it. \<open>lockSeat\<close> runs the sweep over the whole store before it looks
  at its own seat. Every other seat of the store is afterwards what the sweep at the
  clock of the call makes of it, whether the call succeeds or fails: unchanged, unless
  it was locked with \<open>lockExpiresAt\<close> before that clock, in which case it is available
  with user, lock identifier and both lock timestamps cleared.
\<close>

theorem lockSeat_other_seats:
  assumes "k \<noteq> seatId" and "map_of seats k = Some y"
  shows "map_of (snd (lockSeat seats seatId user uuid now locked_at)) k
           = Some (if expired now y then make_available y else y)"
proof -
  have "map_of (snd (lockSeat seats seatId user uuid now locked_at)) k
          = map_of (cleanupExpiredLocks now seats) k"
    using assms(1)
    by (cases "seat_at (cleanupExpiredLocks now seats) seatId")
      (simp_all add: lockSeat_def Let_def update_conv')
  with assms(2) show ?thesis
    by (simp add: map_of_cleanup expire_def)
qed

theorem lockSeat_other_seats_witness:
  "''B3'' \<noteq> ''A1'' \<and> map_of leased_B3 ''B3'' = Some locked_B3
   \<and> map_of (snd (lockSeat leased_B3 ''A1'' ''alice'' ''lock-2'' 1000 1000)) ''B3''
       = Some locked_B3
   \<and> map_of (snd (lockSeat leased_B3 ''A1'' ''alice'' ''lock-2'' 70000 70000)) ''B3''
       = Some (make_available locked_B3)"
proof -
  have n: "''B3'' \<noteq> ''A1''" by simp
  have h: "map_of leased_B3 ''B3'' = Some locked_B3" by code_simp
  have e1: "\<not> expired 1000 locked_B3" by (simp add: expired_def locked_B3_def)
  have e2: "expired 70000 locked_B3" by (simp add: expired_def locked_B3_def)
  from n h e1 e2
    lockSeat_other_seats [OF n h, of "''alice''" "''lock-2''" 1000 1000]
    lockSeat_other_seats [OF n h, of "''alice''" "''lock-2''" 70000 70000]
  show ?thesis by simp
qed

text \<open>
  As the specification words it, every other seat is identical before and after the
  call. That fails: with B3 locked until 60000, a call for A1 at 70000 (and equally a
  call for the unknown seat Z9, which fails with \<open>NotFound\<close>) changes B3.
\<close>

theorem lockSeat_other_seats_counterexample:
  "map_of (snd (lockSeat leased_B3 ''A1'' ''alice'' ''lock-2'' 70000 70000)) ''B3''
     \<noteq> map_of leased_B3 ''B3''
   \<and> fst (lockSeat leased_B3 ''Z9'' ''alice'' ''lock-2'' 70000 70000) = Inl NotFound
   \<and> map_of (snd (lockSeat leased_B3 ''Z9'' ''alice'' ''lock-2'' 70000 70000)) ''B3''
     \<noteq> map_of leased_B3 ''B3''"
  by code_simp

section \<open>Expiry seen by the operations\<close>

text \<open>
  C5, as the code has it. \<open>lockSeat\<close> and \<open>confirmBooking\<close> run the sweep before they
  validate: on a seat that is locked with \<open>lockExpiresAt\<close> before the clock of the sweep,
  \<open>lockSeat\<close> succeeds for the new caller and \<open>confirmBooking\<close> fails with \<open>NotLocked\<close>,
  the seat being available. \<open>unlockSeat\<close> runs no sweep: it validates the seat as stored,
  so the stale lock is released for its holder and refused with \<open>InvalidUserOrLockId\<close>
  for anybody else.
\<close>

theorem lazy_expiry_in_operations:
  assumes "map_of seats seatId = Some seat" and "expired now seat"
  shows "(\<exists>s'. fst (lockSeat seats seatId user uuid now locked_at)
               = Inr (uuid, locked_at + LOCK_DURATION, s')
             \<and> status s' = LOCKED \<and> userId s' = Some user \<and> lockId s' = Some uuid)
       \<and> fst (confirmBooking seats seatId user lock now checked_at booked_at)
           = Inl (NotLocked (Some AVAILABLE))
       \<and> seat_at (snd (confirmBooking seats seatId user lock now checked_at booked_at)) seatId
           = OwnSeat (make_available seat)
       \<and> unlockSeat seats seatId user lock
           = (if userId seat \<noteq> Some user \<or> lockId seat \<noteq> Some lock
              then (Inl InvalidUserOrLockId, seats)
              else (Inr (make_available seat),
                    AList.update seatId (make_available seat) seats))"
proof -
  from assms have swept:
    "seat_at (cleanupExpiredLocks now seats) seatId = OwnSeat (make_available seat)"
    by (simp add: seat_at_cleanup_own expire_def)
  from assms have stored: "seat_at seats seatId = OwnSeat seat" and "status seat = LOCKED"
    by (simp_all add: seat_at_own expired_def)
  then show ?thesis
    using swept
    by (simp add: lockSeat_def confirmBooking_def unlockSeat_def Let_def)
qed

theorem lazy_expiry_in_operations_witness:
  "map_of leased_B3 ''B3'' = Some locked_B3 \<and> expired 70000 locked_B3
   \<and> (\<exists>s'. fst (lockSeat leased_B3 ''B3'' ''erin'' ''lock-2'' 70000 70001)
               = Inr (''lock-2'', 70001 + LOCK_DURATION, s')
             \<and> status s' = LOCKED \<and> userId s' = Some ''erin'' \<and> lockId s' = Some ''lock-2'')
   \<and> fst (confirmBooking leased_B3 ''B3'' ''dave'' ''lock-1'' 70000 70001 70002)
       = Inl (NotLocked (Some AVAILABLE))
   \<and> fst (unlockSeat leased_B3 ''B3'' ''dave'' ''lock-1'') = Inr (make_available locked_B3)"
proof -
  have h: "map_of leased_B3 ''B3'' = Some locked_B3" by code_simp
  have e: "expired 70000 locked_B3" by (simp add: expired_def locked_B3_def)
  from h e
    lazy_expiry_in_operations [OF h e, of "''erin''" "''lock-2''" 70001]
    lazy_expiry_in_operations [OF h e, of "''dave''" "''lock-1''" 70001 "''lock-1''" 70001 70002]
  show ?thesis by (auto simp: locked_B3_def)
qed

text \<open>
  The specification counts \<open>unlockSeat\<close> among the operations that reclaim a stale
  lock before validating. With B3 locked until 60000, \<open>unlockSeat\<close> long after that
  succeeds for the holder, where it would fail with \<open>NotLocked\<close> on the swept store, and
  for another user it fails with \<open>InvalidUserOrLockId\<close> and leaves the seat locked.
\<close>

theorem unlockSeat_no_expiry_counterexample:
  "seat_at leased_B3 ''B3'' = OwnSeat locked_B3 \<and> expired 120000 locked_B3
   \<and> fst (unlockSeat leased_B3 ''B3'' ''dave'' ''lock-1'') = Inr (make_available locked_B3)
   \<and> fst (unlockSeat (cleanupExpiredLocks 120000 leased_B3) ''B3'' ''dave'' ''lock-1'')
       = Inl (NotLocked (Some AVAILABLE))
   \<and> fst (unlockSeat leased_B3 ''B3'' ''erin'' ''lock-1'') = Inl InvalidUserOrLockId
   \<and> seat_at (snd (unlockSeat leased_B3 ''B3'' ''erin'' ''lock-1'')) ''B3'' = OwnSeat locked_B3"
  by code_simp

text \<open>
  C6, as the code has it. A seat locked at time \<open>t\<close> expires at \<open>t + LOCK_DURATION\<close>. At
  every clock strictly after that, \<open>getSeatById\<close> returns the seat available,
  \<open>getAllSeats\<close> lists it available and lists no expired lock, \<open>getStatistics\<close> counts as
  locked only the locks still in force and counts the expired ones as available,
  \<open>lockSeat\<close> by any user succeeds, also after such a read, and \<open>confirmBooking\<close> finds
  the seat available. (\<open>unlockSeat\<close> is not among them, and the clock \<open>t + LOCK_DURATION\<close>
  itself is not either.)
\<close>

theorem expired_lock_reads_available:
  assumes "map_of seats seatId = Some seat" and "status seat = LOCKED"
    and "lockedAt seat = Some t" and "lockExpiresAt seat = Some (t + LOCK_DURATION)"
    and "now > t + LOCK_DURATION"
  shows "fst (getSeatById seats seatId now) = OwnSeat (make_available seat)
       \<and> status (make_available seat) = AVAILABLE
       \<and> make_available seat \<in> set (fst (getAllSeats seats now))
       \<and> (\<forall>s \<in> set (fst (getAllSeats seats now)). \<not> expired now s)
       \<and> locked (fst (getStatistics seats now))
           = length (filter (\<lambda>s. status s = LOCKED \<and> \<not> expired now s) (map snd seats))
       \<and> available (fst (getStatistics seats now))
           = length (filter (\<lambda>s. status s = AVAILABLE \<or> expired now s) (map snd seats))
       \<and> expired now seat \<and> seat \<in> set (map snd seats)
       \<and> (\<exists>r. fst (lockSeat seats seatId user uuid now locked_at) = Inr r)
       \<and> fst (confirmBooking seats seatId user lock now checked_at booked_at)
           = Inl (NotLocked (Some AVAILABLE))
       \<and> (\<exists>r. fst (lockSeat (snd (getSeatById seats seatId now)) seatId user uuid now'
                  locked_at) = Inr r)"
proof -
  from assms have ex: "expired now seat"
    by (simp add: expired_def)
  with assms(1) have swept:
    "seat_at (cleanupExpiredLocks now seats) seatId = OwnSeat (make_available seat)"
    by (simp add: seat_at_cleanup_own expire_def)
  from assms(1) have mem: "(seatId, seat) \<in> set seats"
    by (rule map_of_SomeD)
  then have in_list: "seat \<in> set (map snd seats)"
    by force
  from mem have "(seatId, expire now seat) \<in> set (cleanupExpiredLocks now seats)"
    by (force simp: cleanupExpiredLocks_def)
  then have "expire now seat \<in> set (map snd (cleanupExpiredLocks now seats))"
    by force
  with ex have listed: "make_available seat \<in> set (fst (getAllSeats seats now))"
    by (simp add: getAllSeats_def Let_def expire_def)
  have none_expired: "\<forall>s \<in> set (fst (getAllSeats seats now)). \<not> expired now s"
    by (auto simp: getAllSeats_def Let_def map_snd_cleanup)
  have again: "seat_at (cleanupExpiredLocks now' (cleanupExpiredLocks now seats)) seatId
      = OwnSeat (make_available seat)"
  proof -
    from swept have "map_of (cleanupExpiredLocks now seats) seatId = Some (make_available seat)"
      by (simp only: seat_at_own)
    then show ?thesis
      by (simp add: seat_at_cleanup_own)
  qed
  have l1: "\<exists>r. fst (lockSeat seats seatId user uuid now locked_at) = Inr r"
    using swept by (simp add: lockSeat_def Let_def)
  have l2: "\<exists>r. fst (lockSeat (snd (getSeatById seats seatId now)) seatId user uuid now'
                  locked_at) = Inr r"
    using again by (simp add: lockSeat_def getSeatById_def Let_def)
  have c: "fst (confirmBooking seats seatId user lock now checked_at booked_at)
           = Inl (NotLocked (Some AVAILABLE))"
    using swept by (simp add: confirmBooking_def Let_def)
  have g: "fst (getSeatById seats seatId now) = OwnSeat (make_available seat)"
    using swept by (simp add: getSeatById_def Let_def)
  from g listed none_expired getStatistics_counts [of seats now] ex in_list l1 c l2
  show ?thesis by simp
qed

theorem expired_lock_reads_available_witness:
  "map_of leased_B3 ''B3'' = Some locked_B3 \<and> status locked_B3 = LOCKED
   \<and> lockedAt locked_B3 = Some 0 \<and> lockExpiresAt locked_B3 = Some (0 + LOCK_DURATION)
   \<and> 60001 > 0 + LOCK_DURATION
   \<and> fst (getSeatById leased_B3 ''B3'' 60001) = OwnSeat (make_available locked_B3)
   \<and> make_available locked_B3 \<in> set (fst (getAllSeats leased_B3 60001))
   \<and> locked (fst (getStatistics leased_B3 60001)) = 0
   \<and> available (fst (getStatistics leased_B3 60001)) = 40
   \<and> (\<exists>r. fst (lockSeat leased_B3 ''B3'' ''erin'' ''lock-2'' 60001 60001) = Inr r)"
proof -
  have h: "map_of leased_B3 ''B3'' = Some locked_B3" by code_simp
  have f: "status locked_B3 = LOCKED" "lockedAt locked_B3 = Some 0"
    "lockExpiresAt locked_B3 = Some (0 + LOCK_DURATION)" "60001 > 0 + LOCK_DURATION"
    by (simp_all add: locked_B3_def LOCK_DURATION_def)
  have s: "locked (fst (getStatistics leased_B3 60001)) = 0"
    "available (fst (getStatistics leased_B3 60001)) = 40"
    by code_simp+
  from h f s expired_lock_reads_available [OF h f, of "''erin''" "''lock-2''" 60001]
  show ?thesis by simp
qed

text \<open>
  As the specification words it, the same holds from \<open>t + LOCK_DURATION\<close> on and for
  \<open>unlockSeat\<close> too. That fails: at exactly \<open>t + LOCK_DURATION\<close> the sweep compares with
  \<open>>\<close> and keeps the lock, so \<open>getSeatById\<close> returns the seat locked and \<open>lockSeat\<close> by
  another user fails with the conflict failure; and \<open>unlockSeat\<close>, which reads no clock,
  finds the seat locked at any time.
\<close>

theorem expired_lock_reads_available_counterexample:
  "seat_at leased_B3 ''B3'' = OwnSeat locked_B3
   \<and> lockedAt locked_B3 = Some 0 \<and> lockExpiresAt locked_B3 = Some (0 + LOCK_DURATION)
   \<and> fst (getSeatById leased_B3 ''B3'' (0 + LOCK_DURATION)) = OwnSeat locked_B3
   \<and> status locked_B3 = LOCKED
   \<and> fst (lockSeat leased_B3 ''B3'' ''erin'' ''lock-2'' (0 + LOCK_DURATION) (0 + LOCK_DURATION))
       = Inl (Conflict (Some LOCKED))
   \<and> fst (unlockSeat leased_B3 ''B3'' ''erin'' ''lock-2'') = Inl InvalidUserOrLockId"
  by code_simp

end
